theory Spec2Isabelle
  imports Complex_Main "HOL-Library.Product_Lexorder" "HOL-Library.Log_Nat"
begin

section \<open>CanICA: a shallow embedding of \<open>nisl/decomposition/canica.py\<close>\<close>

text \<open>
  The module is Python 2 on numpy, scipy and scikit-learn. The embedding follows the
  source statement by statement.
  \<^item> A 2-D float array is the list of its rows; its entries are the finite float values,
    read as reals (comparison, \<open>abs\<close> and assignment of such values are exact).
    An array without rows does not carry its column count. The arithmetic of \<open>fit\<close> is
    that of the reals; \<open>np.dot\<close>, on which \<open>transform\<close> rests, rounds every operation to
    float64.
  \<^item> A kurtosis score is a float that may also be infinite or NaN (type \<open>fl\<close>), since the
    acceptance test of \<open>fit\<close> compares it with \<open>-np.inf\<close>.
  \<^item> Arrays live in a store (a list of cells, an address is an index) wherever the source
    works in place: \<open>-=\<close>, \<open>/=\<close>, \<open>this_map[:] = ...\<close>.
  \<^item> Exceptions are values of type \<open>error\<close>; a function that may raise returns
    \<open>error + 'a\<close>.
  \<^item> The library routines (SVD, randomized SVD, FastICA, kurtosis, the volume filters)
    and \<open>BaseModel.learn_from_maps\<close> are parameters, collected in the record \<open>ext\<close>.
  \<^item> \<open>self.memory.cache(f)\<close> is \<open>f\<close>: the default \<open>Memory(cachedir=None)\<close> does not cache.
    The \<open>print\<close> statement is left out.
\<close>

subsection \<open>Values\<close>

datatype error =
    AssertionError
  | UnboundLocalError
  | AttributeError
  | IndexError
  | LinAlgError
  | ValueError string

type_synonym vec = "real list"
type_synonym matrix = "real list list"

datatype fl = NInf | Fin real | PInf | NaN

text \<open>IEEE comparison \<open>a > b\<close>: false as soon as one side is NaN.\<close>

fun fl_gt :: "fl \<Rightarrow> fl \<Rightarrow> bool" where
  "fl_gt NaN _ = False"
| "fl_gt _ NaN = False"
| "fl_gt NInf _ = False"
| "fl_gt (Fin x) NInf = True"
| "fl_gt (Fin x) (Fin y) = (y < x)"
| "fl_gt (Fin x) PInf = False"
| "fl_gt PInf PInf = False"
| "fl_gt PInf _ = True"

text \<open>
  Python slicing \<open>xs[:m]\<close>: a negative \<open>m\<close> counts from the end.
\<close>

definition py_take :: "int \<Rightarrow> 'a list \<Rightarrow> 'a list" where
  "py_take m xs = (if 0 \<le> m then take (nat m) xs else take (nat (int (length xs) + m)) xs)"

subsection \<open>numpy on 2-D arrays\<close>

definition ncols :: "matrix \<Rightarrow> nat" where
  "ncols m = (case m of [] \<Rightarrow> 0 | r # _ \<Rightarrow> length r)"

definition column :: "matrix \<Rightarrow> nat \<Rightarrow> vec" where
  "column m j = map (\<lambda>r. r ! j) m"

text \<open>\<open>m.T\<close>\<close>

definition np_T :: "matrix \<Rightarrow> matrix" where
  "np_T m = map (column m) [0..<ncols m]"

definition mean :: "vec \<Rightarrow> real" where
  "mean xs = sum_list xs / real (length xs)"

text \<open>\<open>m.mean(axis=0)\<close> and \<open>m.std(axis=0)\<close>: one value per column.\<close>

definition mean_axis0 :: "matrix \<Rightarrow> vec" where
  "mean_axis0 m = map (\<lambda>j. mean (column m j)) [0..<ncols m]"

definition std :: "vec \<Rightarrow> real" where
  "std xs = sqrt (mean (map (\<lambda>x. (x - mean xs)\<^sup>2) xs))"

definition std_axis0 :: "matrix \<Rightarrow> vec" where
  "std_axis0 m = map (\<lambda>j. std (column m j)) [0..<ncols m]"

text \<open>\<open>m - v\<close> and \<open>m / v\<close> with the vector broadcast over the rows.\<close>

definition sub_rows :: "matrix \<Rightarrow> vec \<Rightarrow> matrix" where
  "sub_rows m v = map (\<lambda>r. map2 (-) r v) m"

definition div_rows :: "matrix \<Rightarrow> vec \<Rightarrow> matrix" where
  "div_rows m v = map (\<lambda>r. map2 (/) r v) m"

text \<open>\<open>subject_data -= subject_data.mean(axis=0)\<close>, as a function of the array's value.\<close>

definition center :: "matrix \<Rightarrow> matrix" where
  "center m = sub_rows m (mean_axis0 m)"

text \<open>\<open>std[std==0] = 1\<close>\<close>

definition adjust_std :: "vec \<Rightarrow> vec" where
  "adjust_std s = map (\<lambda>d. if d = 0 then 1 else d) s"

text \<open>
  \<open>np.concatenate(pcas, axis=1)\<close>: the arrays are put side by side; they must have the
  same number of rows, and there must be at least one.
\<close>

definition np_concatenate_axis1 :: "matrix list \<Rightarrow> error + matrix" where
  "np_concatenate_axis1 ms =
     (case ms of
        [] \<Rightarrow> Inl (ValueError ''need at least one array to concatenate'')
      | m # rest \<Rightarrow>
          if list_all (\<lambda>m'. length m' = length m) rest
          then Inr (map (\<lambda>i. concat (map (\<lambda>m'. m' ! i) ms)) [0..<length m])
          else Inl (ValueError ''all the input array dimensions must match''))"

text \<open>
  Rounding of a real to the nearest float64, ties to the even significand: \<open>expo x\<close> is
  the exponent of \<open>x\<close> (\<open>2 ^ expo x \<le> |x| < 2 ^ (expo x + 1)\<close>), and the 53-bit
  significand is \<open>x\<close> in units of \<open>2 ^ (expo x - 52)\<close>, rounded to an integer. Overflow
  and subnormal numbers are left out.
\<close>

definition expo :: "real \<Rightarrow> int" where
  "expo x = (if 1 \<le> \<bar>x\<bar> then bitlen \<lfloor>\<bar>x\<bar>\<rfloor> - 1 else - bitlen (\<lceil>1 / \<bar>x\<bar>\<rceil> - 1))"

definition round_even :: "real \<Rightarrow> int" where
  "round_even y =
     (let f = \<lfloor>y\<rfloor>; d = y - of_int f
      in if d < 1/2 then f else if 1/2 < d then f + 1 else if even f then f else f + 1)"

definition f64 :: "real \<Rightarrow> real" where
  "f64 x = (if x = 0 then 0
            else (let u = 2 powi (expo x - 52) in of_int (round_even (x / u)) * u))"

text \<open>
  The dot product of two float64 vectors: the products are added up from left to right and
  every product and every sum is rounded (the order of a plain loop; an optimised BLAS may
  add in another order).
\<close>

definition dot :: "vec \<Rightarrow> vec \<Rightarrow> real" where
  "dot x y = foldl (\<lambda>acc (u, v). f64 (acc + f64 (u * v))) 0 (zip x y)"

text \<open>
  \<open>np.dot(x, b)\<close> for 2-D arrays: every row of \<open>x\<close> must be as long as \<open>b\<close> has rows.
\<close>

definition np_dot :: "matrix \<Rightarrow> matrix \<Rightarrow> error + matrix" where
  "np_dot x b =
     (if list_all (\<lambda>r. length r = length b) x
      then Inr (map (\<lambda>r. map (\<lambda>c. dot r c) (np_T b)) x)
      else Inl (ValueError ''matrices are not aligned''))"

text \<open>
  \<open>np.argsort(kurtosis)\<close>. numpy orders floats ascending with NaN last. Its default sort
  (quicksort) is an insertion sort on arrays of at most 16 elements, which leaves equal
  values in their original order. On longer arrays it partitions first and the order of
  equal values depends on the partitioning: there \<open>ties ks i\<close> stands for the rank that
  numpy's quicksort gives index \<open>i\<close> among the indices of equal value.
\<close>

fun np_key :: "fl \<Rightarrow> nat \<times> real" where
  "np_key NInf = (0, 0)"
| "np_key (Fin x) = (1, x)"
| "np_key PInf = (2, 0)"
| "np_key NaN = (3, 0)"

definition np_argsort :: "(fl list \<Rightarrow> nat \<Rightarrow> nat) \<Rightarrow> fl list \<Rightarrow> nat list" where
  "np_argsort ties ks =
     (if length ks \<le> 16 then sort_key (\<lambda>i. np_key (ks ! i)) [0..<length ks]
      else sort_key (\<lambda>i. (np_key (ks ! i), ties ks i)) [0..<length ks])"

subsection \<open>Boolean-mask indexing of a volume\<close>

text \<open>
  A volume and its mask are flattened. \<open>vol[mask]\<close> reads the entries at the true
  positions; \<open>vol[mask] = xs\<close> writes \<open>xs\<close> there, one value per true position (a single
  value is broadcast).
\<close>

definition mask_select :: "vec \<Rightarrow> bool list \<Rightarrow> error + vec" where
  "mask_select vol mk =
     (if length vol = length mk then Inr (map fst (filter snd (zip vol mk)))
      else Inl IndexError)"

fun scatter :: "vec \<Rightarrow> bool list \<Rightarrow> vec \<Rightarrow> vec" where
  "scatter (v # vs) (b # bs) xs =
     (if b then (case xs of [] \<Rightarrow> v # scatter vs bs [] | x # xs' \<Rightarrow> x # scatter vs bs xs')
      else v # scatter vs bs xs)"
| "scatter vs _ _ = vs"

definition mask_assign :: "vec \<Rightarrow> bool list \<Rightarrow> vec \<Rightarrow> error + vec" where
  "mask_assign vol mk xs =
     (let n = length (filter id mk) in
      if length vol \<noteq> length mk then Inl IndexError
      else if length xs = n then Inr (scatter vol mk xs)
      else if length xs = 1 then Inr (scatter vol mk (replicate n (hd xs)))
      else Inl (ValueError ''shape mismatch''))"

text \<open>\<open>this_map[:] = vals\<close>\<close>

definition slice_assign :: "vec \<Rightarrow> vec \<Rightarrow> error + vec" where
  "slice_assign this_map vals =
     (if length vals = length this_map then Inr vals
      else if length vals = 1 then Inr (replicate (length this_map) (hd vals))
      else Inl (ValueError ''could not broadcast input array''))"

subsection \<open>The collaborators and the model object\<close>

text \<open>
  The routines imported from scipy, scikit-learn and the rest of the package. Each takes
  the arguments the source passes and returns what the source keeps of the result:
  \<open>linalg.svd(a, full_matrices=False)[0]\<close>, \<open>randomized_svd(a, k)[0]\<close>,
  \<open>fastica(a, whiten=False, fun='cube', random_state=rs)[2]\<close> together with the random
  state it leaves behind, \<open>stats.kurtosis\<close> of one row,
  \<open>extrapolate_out_mask(vol, mask, iterations=it)[0]\<close>, \<open>ndimage.gaussian_filter\<close>.
  \<open>quicksort_ties\<close> is the tie order of numpy's quicksort on long arrays (see
  \<open>np_argsort\<close>).
  Modelled from the spec: \<open>learn_from_maps\<close> of \<open>BaseModel\<close> (not in the source file) is
  the back-projection collaborator: given the finalized maps and the per-subject data it
  recovers time series, here a value of type \<open>'m\<close>.
\<close>

record ('rs, 'm) ext =
  check_random_state :: "int option \<Rightarrow> error + 'rs"
  extrapolate_out_mask :: "vec \<Rightarrow> bool list \<Rightarrow> int \<Rightarrow> error + vec"
  gaussian_filter :: "vec \<Rightarrow> real \<Rightarrow> error + vec"
  svd_U :: "matrix \<Rightarrow> error + matrix"
  randomized_svd_U :: "matrix \<Rightarrow> int \<Rightarrow> error + matrix"
  fastica_S :: "matrix \<Rightarrow> 'rs \<Rightarrow> error + (matrix \<times> 'rs)"
  kurtosis :: "vec \<Rightarrow> fl"
  quicksort_ties :: "fl list \<Rightarrow> nat \<Rightarrow> nat"
  learn_from_maps :: "matrix \<Rightarrow> matrix list \<Rightarrow> error + 'm"

text \<open>
  The attributes of a \<open>CanICA\<close> object. \<open>smooth\<close> and \<open>kurtosis_thr\<close> are
  "False or float": \<open>None\<close> stands for \<open>False\<close> (and for the default \<open>smooth=None\<close>).
  \<open>self_maps\<close> is the attribute \<open>maps_\<close>, unset until \<open>fit\<close> assigns it; \<open>mask_vol\<close> is
  the attribute \<open>mask\<close>; \<open>learned\<close> holds what \<open>learn_from_maps\<close> stores.
\<close>

record 'm canica =
  n_components :: int
  threshold :: real
  mask_vol :: "bool list option"
  smooth :: "real option"
  kurtosis_thr :: "real option"
  maps_only :: bool
  random_state :: "int option"
  self_maps :: "matrix option"
  learned :: "'m option"

text \<open>\<open>if self.smooth:\<close>\<close>

definition truthy :: "real option \<Rightarrow> bool" where
  "truthy s = (case s of None \<Rightarrow> False | Some v \<Rightarrow> v \<noteq> 0)"

subsection \<open>The store\<close>

type_synonym addr = nat
type_synonym heap = "matrix list"

text \<open>
  The argument \<open>data\<close> of \<open>fit\<close>: a 3-D float array, given by the cells of its 2-D
  slices; an array of dtype object whose elements are 2-D arrays (what \<open>np.array\<close> makes
  of subjects of different lengths), given by the cells of its elements; or a Python list
  of 2-D arrays. An object array and a list may name the same array twice.
\<close>

datatype pydata = NdArray "addr list" | ObjArray "addr list" | PyList "addr list"

text \<open>\<open>a.copy()\<close> of one array: a new cell with the same value.\<close>

definition array_copy :: "heap \<Rightarrow> addr \<Rightarrow> addr \<times> heap" where
  "array_copy h a = (length h, h @ [h ! a])"

text \<open>\<open>data.copy()\<close> of a 3-D array: every slice is copied.\<close>

fun ndarray_copy :: "heap \<Rightarrow> addr list \<Rightarrow> addr list \<times> heap" where
  "ndarray_copy h [] = ([], h)"
| "ndarray_copy h (a # as) =
     (let (a', h1) = array_copy h a; (as', h2) = ndarray_copy h1 as in (a' # as', h2))"

text \<open>
  \<open>copy.deepcopy(data)\<close> of a list: the memo maps every array already copied to its
  copy, so an array that occurs twice is copied once.
\<close>

fun deepcopy :: "heap \<Rightarrow> (addr \<times> addr) list \<Rightarrow> addr list \<Rightarrow> addr list \<times> heap" where
  "deepcopy h memo [] = ([], h)"
| "deepcopy h memo (a # as) =
     (case map_of memo a of
        Some a' \<Rightarrow> (let (as', h2) = deepcopy h memo as in (a' # as', h2))
      | None \<Rightarrow>
          (let (a', h1) = array_copy h a; (as', h2) = deepcopy h1 ((a, a') # memo) as
           in (a' # as', h2)))"

text \<open>
  The first statement of \<open>fit\<close>: an array has \<open>copy\<close> and is copied with it, a list (which
  has no \<open>copy\<close> in Python 2) is deep-copied. \<open>copy\<close> of an object array makes a new array
  of the same references: its elements are the caller's arrays.
\<close>

definition copy_data :: "heap \<Rightarrow> pydata \<Rightarrow> addr list \<times> heap" where
  "copy_data h data =
     (case data of
        NdArray as \<Rightarrow> ndarray_copy h as
      | ObjArray as \<Rightarrow> (as, h)
      | PyList as \<Rightarrow> deepcopy h [] as)"

subsection \<open>\<open>smooth_from_mask\<close>\<close>

text \<open>
  The loop over the rows of \<open>data\<close>. \<open>map3d\<close> is carried from one row to the next, as in
  the source. Every row is overwritten in place, so when a row fails the rows before it
  have already changed: the function returns the rows as they are when it stops.
\<close>

fun smooth_rows ::
  "('rs, 'm) ext \<Rightarrow> bool list \<Rightarrow> real \<Rightarrow> vec \<Rightarrow> matrix \<Rightarrow> error option \<times> matrix" where
  "smooth_rows E mk voxels map3d [] = (None, [])"
| "smooth_rows E mk voxels map3d (this_map # rest) =
     (case mask_assign map3d mk this_map of
        Inl e \<Rightarrow> (Some e, this_map # rest)
      | Inr v1 \<Rightarrow>
     (case extrapolate_out_mask E v1 mk (\<lceil>voxels\<rceil> + 2) of
        Inl e \<Rightarrow> (Some e, this_map # rest)
      | Inr v2 \<Rightarrow>
     (case gaussian_filter E v2 voxels of
        Inl e \<Rightarrow> (Some e, this_map # rest)
      | Inr v3 \<Rightarrow>
     (case mask_select v3 mk of
        Inl e \<Rightarrow> (Some e, this_map # rest)
      | Inr vals \<Rightarrow>
     (case slice_assign this_map vals of
        Inl e \<Rightarrow> (Some e, this_map # rest)
      | Inr row \<Rightarrow>
          (let (err, rest') = smooth_rows E mk voxels v3 rest in (err, row # rest')))))))"

definition smooth_from_mask ::
  "('rs, 'm) ext \<Rightarrow> heap \<Rightarrow> addr \<Rightarrow> bool list \<Rightarrow> real \<Rightarrow> bool \<Rightarrow> (error + addr) \<times> heap" where
  "smooth_from_mask E h data mk voxels cp =
     (let (d, h1) = (if cp then array_copy h data else (data, h));
          map3d = replicate (length mk) 0;
          (err, rows) = smooth_rows E mk voxels map3d (h1 ! d);
          h2 = h1[d := rows]
      in (case err of Some e \<Rightarrow> (Inl e, h2) | None \<Rightarrow> (Inr d, h2)))"

subsection \<open>\<open>CanICA.fit\<close>: the per-subject loop\<close>

text \<open>
  The body of \<open>for subject_data in data\<close> for the subject stored at \<open>a\<close>. It returns
  what the body appends to \<open>pcas\<close>.
\<close>

definition reduce_subject ::
  "('rs, 'm) ext \<Rightarrow> 'm canica \<Rightarrow> heap \<Rightarrow> addr \<Rightarrow> (error + matrix) \<times> heap" where
  "reduce_subject E self h a =
     (let h1 = h[a := center (h ! a)] in
      case (if truthy (smooth self) then
              (case mask_vol self of
                 None \<Rightarrow> (Inl AssertionError, h1)
               | Some mk \<Rightarrow>
                   (case smooth_from_mask E h1 a mk (the (smooth self)) False of
                      (Inl e, h2) \<Rightarrow> (Inl e, h2)
                    | (Inr a2, h2) \<Rightarrow>
                        (let (a3, h3) = array_copy h2 a2
                         in (Inr a3, h3[a3 := center (h3 ! a3)]))))
            else (Inr a, h1)) of
        (Inl e, h4) \<Rightarrow> (Inl e, h4)
      | (Inr b, h4) \<Rightarrow>
          (let sd = adjust_std (std_axis0 (h4 ! b));
               h5 = h4[b := div_rows (h4 ! b) sd]
           in (case svd_U E (np_T (h5 ! b)) of
                 Inl e \<Rightarrow> (Inl e, h5)
               | Inr u \<Rightarrow> (Inr (map (py_take (2 * n_components self)) u), h5))))"

fun reduce_subjects ::
  "('rs, 'm) ext \<Rightarrow> 'm canica \<Rightarrow> heap \<Rightarrow> addr list \<Rightarrow> matrix list
     \<Rightarrow> (error + matrix list) \<times> heap" where
  "reduce_subjects E self h [] pcas = (Inr pcas, h)"
| "reduce_subjects E self h (a # as) pcas =
     (case reduce_subject E self h a of
        (Inl e, h') \<Rightarrow> (Inl e, h')
      | (Inr p, h') \<Rightarrow> reduce_subjects E self h' as (pcas @ [p]))"

subsection \<open>\<open>CanICA.fit\<close>: the escalation loop\<close>

text \<open>
  \<open>while n_components < 3 * n_components: ... else: raise ValueError(...)\<close>. The locals
  \<open>n_components\<close>, \<open>kurtosis_thr\<close> and \<open>random_state\<close> are the arguments \<open>k\<close>, \<open>thr\<close> and
  \<open>rs\<close>. The loop may
  run forever, in which case the function is \<open>None\<close>.
\<close>

definition count_true :: "bool list \<Rightarrow> int" where
  "count_true bs = int (length (filter id bs))"

partial_function (option) escalate ::
  "('rs, 'm) ext \<Rightarrow> fl \<Rightarrow> matrix list \<Rightarrow> 'rs \<Rightarrow> int \<Rightarrow> (error + matrix) option" where
  "escalate E thr pcas rs k =
     (if k < 3 * k then
        (case np_concatenate_axis1 pcas of
           Inl e \<Rightarrow> Some (Inl e)
         | Inr m \<Rightarrow>
        (case randomized_svd_U E m k of
           Inl e \<Rightarrow> Some (Inl e)
         | Inr g \<Rightarrow>
        (case fastica_S E (map (py_take k) g) rs of
           Inl e \<Rightarrow> Some (Inl e)
         | Inr (s, rs') \<Rightarrow>
            (let ica_maps = np_T s;
                 kurt = map (kurtosis E) ica_maps;
                 kurtosis_mask = map (\<lambda>x. fl_gt x thr) kurt
             in if k \<le> count_true kurtosis_mask
                then (let order = rev (np_argsort (quicksort_ties E) kurt)
                      in Some (Inr (map (\<lambda>i. ica_maps ! i) (py_take k order))))
                else escalate E thr pcas rs' (k + 1)))))
      else Some (Inl (ValueError ''Could not find components with high-enough kurtosis'')))"

subsection \<open>\<open>CanICA.fit\<close> and \<open>CanICA.transform\<close>\<close>

text \<open>
  The thresholding at the end of \<open>fit\<close>:
  \<open>ica_maps[np.abs(ica_maps) < self.threshold/np.sqrt(ica_maps.shape[1])] = 0\<close>.
\<close>

definition threshold_maps :: "real \<Rightarrow> matrix \<Rightarrow> matrix" where
  "threshold_maps t m =
     map (map (\<lambda>x. if \<bar>x\<bar> < t / sqrt (real (ncols m)) then 0 else x)) m"

text \<open>
  \<open>fit\<close> returns what it raised or that it returned, the object and the store as it left
  them; \<open>None\<close> when the escalation loop does not end. In the branch for a configured
  \<open>kurtosis_thr\<close> the statement \<open>kurtosis_thr = kurtosis_thr\<close> reads a local that has no
  value yet.
\<close>

definition fit ::
  "('rs, 'm) ext \<Rightarrow> 'm canica \<Rightarrow> heap \<Rightarrow> pydata
     \<Rightarrow> ((error + unit) \<times> 'm canica \<times> heap) option" where
  "fit E self h data =
     (case check_random_state E (random_state self) of
        Inl e \<Rightarrow> Some (Inl e, self, h)
      | Inr rs \<Rightarrow>
     (let (copies, h0) = copy_data h data in
      case reduce_subjects E self h0 copies [] of
        (Inl e, h1) \<Rightarrow> Some (Inl e, self, h1)
      | (Inr pcas, h1) \<Rightarrow>
     (case kurtosis_thr self of
        Some t \<Rightarrow> Some (Inl UnboundLocalError, self, h1)
      | None \<Rightarrow>
     (case escalate E NInf pcas rs (n_components self) of
        None \<Rightarrow> None
      | Some (Inl e) \<Rightarrow> Some (Inl e, self, h1)
      | Some (Inr ica_maps) \<Rightarrow>
          (let fitted = threshold_maps (threshold self) ica_maps;
               self1 = self\<lparr>self_maps := Some fitted\<rparr>
           in if maps_only self then Some (Inr (), self1, h1)
              else (case learn_from_maps E fitted (map (\<lambda>a. h1 ! a) copies) of
                      Inl e \<Rightarrow> Some (Inl e, self1, h1)
                    | Inr ts \<Rightarrow> Some (Inr (), self1\<lparr>learned := Some ts\<rparr>, h1)))))))"

text \<open>
  \<open>transform\<close> reads the array at \<open>x\<close> and \<open>self.maps_\<close> and returns a new array.
\<close>

definition transform ::
  "'m canica \<Rightarrow> heap \<Rightarrow> addr \<Rightarrow> (error + addr) \<times> 'm canica \<times> heap" where
  "transform self h x =
     (case self_maps self of
        None \<Rightarrow> (Inl AttributeError, self, h)
      | Some m \<Rightarrow>
          (case np_dot (h ! x) (np_T m) of
             Inl e \<Rightarrow> (Inl e, self, h)
           | Inr r \<Rightarrow> (Inr (length h), self, h @ [r])))"

subsection \<open>Auxiliary notions for the statements\<close>

text \<open>A list of rows is a proper 2-D array when all rows have the length of the first.\<close>

definition rect :: "matrix \<Rightarrow> bool" where
  "rect m = list_all (\<lambda>r. length r = ncols m) m"

text \<open>
  \<open>a * x1 + b * x2\<close> on float64 arrays of the same shape, as numpy computes it: both
  products and the sum are rounded.
\<close>

definition lin_row :: "real \<Rightarrow> vec \<Rightarrow> real \<Rightarrow> vec \<Rightarrow> vec" where
  "lin_row a r1 b r2 = map2 (\<lambda>u v. f64 (f64 (a * u) + f64 (b * v))) r1 r2"

definition lin_comb :: "real \<Rightarrow> matrix \<Rightarrow> real \<Rightarrow> matrix \<Rightarrow> matrix" where
  "lin_comb a x1 b x2 = map2 (\<lambda>r1 r2. lin_row a r1 b r2) x1 x2"

text \<open>
  The product of \<open>x\<close> and the transpose of \<open>m\<close>: entry \<open>(i, j)\<close> is the dot product of row
  \<open>i\<close> of \<open>x\<close> and row \<open>j\<close> of \<open>m\<close>.
\<close>

definition times_T :: "matrix \<Rightarrow> matrix \<Rightarrow> matrix" where
  "times_T x m = map (\<lambda>r. map (dot r) m) x"

text \<open>
  No operation rounds: in \<open>a * u + b * v\<close>, and in the dot product of two vectors (every
  product and every partial sum, from left to right).
\<close>

definition exact_lin :: "real \<Rightarrow> real \<Rightarrow> real \<Rightarrow> real \<Rightarrow> bool" where
  "exact_lin a b u v =
     (f64 (a * u) = a * u \<and> f64 (b * v) = b * v \<and> f64 (a * u + b * v) = a * u + b * v)"

fun exact_sum :: "real \<Rightarrow> (real \<times> real) list \<Rightarrow> bool" where
  "exact_sum acc [] = True"
| "exact_sum acc ((u, v) # ps) =
     (f64 (u * v) = u * v \<and> f64 (acc + u * v) = acc + u * v \<and> exact_sum (acc + u * v) ps)"

definition exact_dot :: "vec \<Rightarrow> vec \<Rightarrow> bool" where
  "exact_dot x y = exact_sum 0 (zip x y)"



subsection \<open>Example collaborators and inputs\<close>

text \<open>
  Collaborators given by tables, for running \<open>fit\<close> on concrete inputs: the \<open>i\<close>-th call
  of FastICA returns the \<open>i\<close>-th entry of \<open>rounds\<close> (the last one from then on), the
  kurtosis of a row is looked up in \<open>kt\<close>, the decompositions and the volume filters return
  their argument, ties of long sorts stay in place. The random state counts the calls of FastICA.
\<close>

definition stub_ext :: "matrix list \<Rightarrow> (vec \<times> fl) list \<Rightarrow> (nat, unit) ext" where
  "stub_ext rounds kt =
     \<lparr> check_random_state = (\<lambda>seed. Inr 0),
       extrapolate_out_mask = (\<lambda>vol mk it. Inr vol),
       gaussian_filter = (\<lambda>vol s. Inr vol),
       svd_U = (\<lambda>m. Inr m),
       randomized_svd_U = (\<lambda>m k. Inr m),
       fastica_S = (\<lambda>g rs. Inr (if rs < length rounds then rounds ! rs else last rounds, Suc rs)),
       kurtosis = (\<lambda>row. case map_of kt row of None \<Rightarrow> Fin 0 | Some v \<Rightarrow> v),
       quicksort_ties = (\<lambda>ks i. 0),
       learn_from_maps = (\<lambda>maps data. Inr ()) \<rparr>"

text \<open>
  \<open>CanICA(n_components=2, random_state=0)\<close>, one subject with two samples of four
  features, and the subject after centering and after standardization.
\<close>

definition stub_self :: "unit canica" where
  "stub_self =
     \<lparr> n_components = 2, threshold = 1, mask_vol = None, smooth = None,
       kurtosis_thr = None, maps_only = False, random_state = Some 0,
       self_maps = None, learned = None \<rparr>"

definition subject0 :: matrix where
  "subject0 = [[1, 2, 0, 1], [3, 2, 4, 1]]"

definition subject0_centered :: matrix where
  "subject0_centered = [[-1, 0, -2, 0], [1, 0, 2, 0]]"

definition subject0_std :: matrix where
  "subject0_std = [[-1, 0, -1, 0], [1, 0, 1, 0]]"

text \<open>A second subject, with four samples, and the same after standardization.\<close>

definition subject1 :: matrix where
  "subject1 = [[1, 2, 0, 1], [3, 2, 4, 1], [1, 2, 0, 1], [3, 2, 4, 1]]"

definition subject1_std :: matrix where
  "subject1_std = [[-1, 0, -1, 0], [1, 0, 1, 0], [-1, 0, -1, 0], [1, 0, 1, 0]]"

text \<open>Candidate maps and their kurtosis scores.\<close>

definition cand_a :: vec where "cand_a = [2, 1/4, 1, 1/2]"
definition cand_b :: vec where "cand_b = [1/4, -3, 1/2, 0]"
definition cand_c :: vec where "cand_c = [0, 1, -2, 0]"
definition cand_d :: vec where "cand_d = [5, 0, 0, 1]"
definition cand_z :: vec where "cand_z = [0, 0, 0, 0]"

definition kt0 :: "(vec \<times> fl) list" where
  "kt0 = [(cand_a, Fin 4), (cand_b, Fin 1), (cand_c, Fin 2), (cand_d, Fin 3), (cand_z, NaN)]"

section \<open>Properties\<close>

subsection \<open>Evaluation on the example inputs\<close>

lemmas cand_defs = cand_a_def cand_b_def cand_c_def cand_d_def cand_z_def

lemmas array_defs =
  center_def sub_rows_def mean_axis0_def mean_def column_def ncols_def std_axis0_def std_def
  adjust_std_def div_rows_def np_T_def py_take_def

lemma copy_subject0:
  "copy_data [subject0] (PyList [0]) = ([Suc 0], [subject0, subject0])"
  by (simp add: copy_data_def array_copy_def)

lemma reduce_subject0:
  "reduce_subjects (stub_ext rounds kt) (stub_self\<lparr>kurtosis_thr := t\<rparr>) [subject0, subject0] [Suc 0] [] =
     (Inr [np_T subject0_std], [subject0, subject0_std])"
  by (simp add: reduce_subject_def stub_ext_def stub_self_def truthy_def subject0_def
      subject0_std_def array_defs)

lemma concat_subject0:
  "np_concatenate_axis1 [np_T subject0_std] = Inr (np_T subject0_std)"
  by (simp add: np_concatenate_axis1_def subject0_std_def array_defs)

subsection \<open>Running \<open>fit\<close>\<close>

lemma fit_accepts:
  assumes "check_random_state E (random_state self) = Inr rs"
    and "copy_data h data = (copies, h0)"
    and "reduce_subjects E self h0 copies [] = (Inr pcas, h1)"
    and "kurtosis_thr self = None"
    and "escalate E NInf pcas rs (n_components self) = Some (Inr ica_maps)"
    and "\<not> maps_only self"
    and "learn_from_maps E (threshold_maps (threshold self) ica_maps) (map (\<lambda>a. h1 ! a) copies) = Inr ts"
  shows "fit E self h data =
    Some (Inr (), self\<lparr>self_maps := Some (threshold_maps (threshold self) ica_maps), learned := Some ts\<rparr>, h1)"
  using assms by (simp add: fit_def Let_def)

lemma fit_loops:
  assumes "check_random_state E (random_state self) = Inr rs"
    and "copy_data h data = (copies, h0)"
    and "reduce_subjects E self h0 copies [] = (Inr pcas, h1)"
    and "kurtosis_thr self = None"
    and "escalate E NInf pcas rs (n_components self) = None"
  shows "fit E self h data = None"
  using assms by (simp add: fit_def Let_def)

lemma fit_unbound:
  assumes "check_random_state E (random_state self) = Inr rs"
    and "copy_data h data = (copies, h0)"
    and "reduce_subjects E self h0 copies [] = (Inr pcas, h1)"
    and "kurtosis_thr self = Some t"
  shows "fit E self h data = Some (Inl UnboundLocalError, self, h1)"
  using assms by (simp add: fit_def Let_def)

lemma fit_reduce_raises:
  assumes "check_random_state E (random_state self) = Inr rs"
    and "copy_data h data = (copies, h0)"
    and "reduce_subjects E self h0 copies [] = (Inl e, h1)"
  shows "fit E self h data = Some (Inl e, self, h1)"
  using assms by (simp add: fit_def Let_def)

lemma stub_random_state: "check_random_state (stub_ext rounds kt) seed = Inr 0"
  by (simp add: stub_ext_def)

lemma stub_learn: "learn_from_maps (stub_ext rounds kt) maps data = Inr ()"
  by (simp add: stub_ext_def)

lemma stub_self_fields:
  "n_components stub_self = 2" "threshold stub_self = 1" "kurtosis_thr stub_self = None"
  "\<not> maps_only stub_self"
  by (simp_all add: stub_self_def)

lemma reduce_subject0_plain:
  "reduce_subjects (stub_ext rounds kt) stub_self [subject0, subject0] [Suc 0] [] =
     (Inr [np_T subject0_std], [subject0, subject0_std])"
  using reduce_subject0 [of rounds kt None] by (simp add: stub_self_def)

lemma reduce_subject0_smooth:
  "reduce_subjects (stub_ext rounds kt)
     (stub_self\<lparr>mask_vol := Some [True, True, True, True], smooth := Some 1\<rparr>)
     [subject0, subject0] [Suc 0] [] =
     (Inr [np_T subject0_std], [subject0, subject0_centered, subject0_std])"
  by (simp add: reduce_subject_def smooth_from_mask_def mask_assign_def mask_select_def
      slice_assign_def array_copy_def stub_ext_def stub_self_def truthy_def subject0_def
      subject0_centered_def subject0_std_def array_defs)

lemma reduce_subject0_no_mask:
  "reduce_subjects (stub_ext rounds kt) (stub_self\<lparr>smooth := Some 1, kurtosis_thr := t\<rparr>)
     [subject0, subject0] [Suc 0] [] =
     (Inl AssertionError, [subject0, subject0_centered])"
  by (simp add: reduce_subject_def stub_self_def truthy_def subject0_def
      subject0_centered_def array_defs)

lemma stub_step:
  assumes "np_concatenate_axis1 pcas = Inr m"
  shows "escalate (stub_ext rounds kt) NInf pcas rs k =
     (if k < 3 * k then
        (let ica_maps = np_T (if rs < length rounds then rounds ! rs else last rounds);
             kurt = map (kurtosis (stub_ext rounds kt)) ica_maps
         in if k \<le> count_true (map (\<lambda>x. fl_gt x NInf) kurt)
            then Some (Inr (map (\<lambda>i. ica_maps ! i) (py_take k (rev (np_argsort (\<lambda>ks i. 0) kurt)))))
            else escalate (stub_ext rounds kt) NInf pcas (Suc rs) (k + 1))
      else Some (Inl (ValueError ''Could not find components with high-enough kurtosis'')))"
  apply (subst escalate.simps)
  apply (simp add: assms Let_def stub_ext_def)
  done

lemma stub_kurtosis:
  "kurtosis (stub_ext rounds kt0) cand_a = Fin 4"
  "kurtosis (stub_ext rounds kt0) cand_b = Fin 1"
  "kurtosis (stub_ext rounds kt0) cand_c = Fin 2"
  "kurtosis (stub_ext rounds kt0) cand_d = Fin 3"
  "kurtosis (stub_ext rounds kt0) cand_z = NaN"
  by (simp_all add: stub_ext_def kt0_def cand_defs)

lemma T_cands:
  "np_T (np_T [cand_a, cand_b]) = [cand_a, cand_b]"
  "np_T (np_T [cand_z, cand_b]) = [cand_z, cand_b]"
  "np_T (np_T [cand_b]) = [cand_b]"
  "np_T (np_T [cand_z, cand_b, cand_c]) = [cand_z, cand_b, cand_c]"
  "np_T (np_T [cand_b, cand_a, cand_c]) = [cand_b, cand_a, cand_c]"
  "np_T (np_T [cand_b, cand_a, cand_c, cand_d]) = [cand_b, cand_a, cand_c, cand_d]"
  by (simp_all add: np_T_def column_def ncols_def cand_defs)

lemma escalate_ab:
  "escalate (stub_ext [np_T [cand_a, cand_b]] kt0) NInf [np_T subject0_std] 0 2 =
     Some (Inr [cand_a, cand_b])"
  apply (subst stub_step [OF concat_subject0])
  apply (simp add: T_cands stub_kurtosis count_true_def np_argsort_def py_take_def)
  done

lemma escalate_zb_bac:
  "escalate (stub_ext [np_T [cand_z, cand_b], np_T [cand_b, cand_a, cand_c]] kt0) NInf
     [np_T subject0_std] 0 2 = Some (Inr [cand_a, cand_c, cand_b])"
  apply (subst stub_step [OF concat_subject0])
  apply (simp add: T_cands stub_kurtosis count_true_def)
  apply (subst stub_step [OF concat_subject0])
  apply (simp add: T_cands stub_kurtosis count_true_def np_argsort_def py_take_def)
  done

lemma escalate_zb_zbc_bacd:
  "escalate
     (stub_ext [np_T [cand_z, cand_b], np_T [cand_z, cand_b, cand_c],
                np_T [cand_b, cand_a, cand_c, cand_d]] kt0) NInf
     [np_T subject0_std] 0 2 = Some (Inr [cand_a, cand_d, cand_c, cand_b])"
  apply (subst stub_step [OF concat_subject0])
  apply (simp add: T_cands stub_kurtosis count_true_def)
  apply (subst stub_step [OF concat_subject0])
  apply (simp add: T_cands stub_kurtosis count_true_def)
  apply (subst stub_step [OF concat_subject0])
  apply (simp add: T_cands stub_kurtosis count_true_def np_argsort_def py_take_def)
  done

lemma threshold_cands:
  "threshold_maps 1 [cand_a, cand_b] = [[2, 0, 1, 1/2], [0, -3, 1/2, 0]]"
  "threshold_maps 1 [cand_b, cand_a] = [[0, -3, 1/2, 0], [2, 0, 1, 1/2]]"
  "threshold_maps 1 [cand_a, cand_c, cand_b] = [[2, 0, 1, 1/2], [0, 1, -2, 0], [0, -3, 1/2, 0]]"
  "threshold_maps 1 [cand_a, cand_d, cand_c, cand_b] =
     [[2, 0, 1, 1/2], [5, 0, 0, 1], [0, 1, -2, 0], [0, -3, 1/2, 0]]"
  by (simp_all add: threshold_maps_def ncols_def cand_defs)

lemma fit_stub_accepts:
  assumes "escalate (stub_ext rounds kt) NInf [np_T subject0_std] 0 2 = Some (Inr ica_maps)"
  shows "fit (stub_ext rounds kt) stub_self [subject0] (PyList [0]) =
    Some (Inr (), stub_self\<lparr>self_maps := Some (threshold_maps 1 ica_maps), learned := Some ()\<rparr>,
          [subject0, subject0_std])"
  using fit_accepts [OF stub_random_state copy_subject0 reduce_subject0_plain, of rounds kt ica_maps "()"]
    assms
  by (simp add: stub_self_fields stub_learn)

subsection \<open>Standardization (C9)\<close>

lemma length_std_axis0: "length (std_axis0 m) = ncols m"
  by (simp add: std_axis0_def)

lemma adjust_std_nonzero: "list_all (\<lambda>d. d \<noteq> 0) (adjust_std s)"
  by (induction s) (simp_all add: adjust_std_def)

lemma column_div_rows_one:
  assumes "list_all (\<lambda>r. j < length r) m" "j < length v" "v ! j = 1"
  shows "column (div_rows m v) j = column m j"
  using assms by (simp add: column_def div_rows_def list_all_iff)

text \<open>
  What the per-subject loop does without smoothing: the private copy is centered, then
  divided in place by the adjusted standard deviations of the centered array.
\<close>

lemma reduce_subject_standardizes:
  assumes "\<not> truthy (smooth self)" "a < length h"
  shows "snd (reduce_subject E self h a) ! a =
           div_rows (center (h ! a)) (adjust_std (std_axis0 (center (h ! a))))"
  using assms by (simp add: reduce_subject_def Let_def split: sum.splits)

text \<open>
  C9. The divisors that \<open>fit\<close> uses, \<open>std\<close> after \<open>std[std==0] = 1\<close>, are all different
  from zero, whatever the array; a feature whose standard deviation is exactly zero gets
  the divisor 1, and the division leaves its column as it was.
\<close>

theorem zero_std_divisor:
  "list_all (\<lambda>d. d \<noteq> 0) (adjust_std (std_axis0 m)) \<and>
   (rect m \<longrightarrow> j < ncols m \<longrightarrow> std_axis0 m ! j = 0 \<longrightarrow>
      adjust_std (std_axis0 m) ! j = 1 \<and>
      column (div_rows m (adjust_std (std_axis0 m))) j = column m j)"
proof (intro conjI impI)
  show "list_all (\<lambda>d. d \<noteq> 0) (adjust_std (std_axis0 m))"
    by (rule adjust_std_nonzero)
next
  assume r: "rect m" and j: "j < ncols m" and z: "std_axis0 m ! j = 0"
  show one: "adjust_std (std_axis0 m) ! j = 1"
    using j z by (simp add: adjust_std_def length_std_axis0)
  have "list_all (\<lambda>r. j < length r) m"
    using r j by (simp add: rect_def list_all_iff)
  then show "column (div_rows m (adjust_std (std_axis0 m))) j = column m j"
    using one j by (intro column_div_rows_one) (simp_all add: adjust_std_def length_std_axis0)
qed

theorem zero_std_divisor_witness:
  "rect subject0_centered \<and> 1 < ncols subject0_centered \<and> std_axis0 subject0_centered ! 1 = 0 \<and>
   adjust_std (std_axis0 subject0_centered) ! 1 = 1 \<and>
   column (div_rows subject0_centered (adjust_std (std_axis0 subject0_centered))) 1 = [0, 0]"
proof -
  have r: "rect subject0_centered"
    by (simp add: rect_def subject0_centered_def ncols_def)
  have j: "1 < ncols subject0_centered"
    by (simp add: subject0_centered_def ncols_def)
  have z: "std_axis0 subject0_centered ! 1 = 0"
    by (simp add: subject0_centered_def std_axis0_def std_def mean_def column_def ncols_def)
  have c: "column subject0_centered 1 = [0, 0]"
    by (simp add: subject0_centered_def column_def)
  from zero_std_divisor [of subject0_centered 1] r j z c show ?thesis
    by simp
qed

subsection \<open>The escalation loop (C1, C2, C3)\<close>

text \<open>
  With a requested count of at least 1 the loop condition \<open>k < 3 * k\<close> holds in every
  round: as long as every round is rejected, the loop goes on and \<open>fit\<close> never raises.
\<close>

lemma escalate_rejecting:
  fixes E :: "('rs, 'm) ext"
  assumes cat: "np_concatenate_axis1 pcas = Inr m"
    and rej: "\<And>k rs. k0 \<le> k \<Longrightarrow>
       \<exists>g s rs'. randomized_svd_U E m k = Inr g \<and>
          fastica_S E (map (py_take k) g) rs = Inr (s, rs') \<and>
          count_true (map (\<lambda>x. fl_gt x thr) (map (kurtosis E) (np_T s))) < k"
    and pos: "1 \<le> k0"
  shows "k0 \<le> k \<Longrightarrow> escalate E thr pcas rs k = None"
proof -
  have "E' = E \<longrightarrow> thr' = thr \<longrightarrow> pcas' = pcas \<longrightarrow> k0 \<le> k \<longrightarrow> False"
    if "escalate E' thr' pcas' rs k = Some y" for E' :: "('rs, 'm) ext" and thr' pcas' rs k y
  proof (rule escalate.raw_induct[where
        P = "\<lambda>E' thr' pcas' rs k y. E' = E \<longrightarrow> thr' = thr \<longrightarrow> pcas' = pcas \<longrightarrow> k0 \<le> k \<longrightarrow> False",
        OF _ that])
    fix esc :: "('rs, 'm) ext \<Rightarrow> fl \<Rightarrow> matrix list \<Rightarrow> 'rs \<Rightarrow> int \<Rightarrow> (error + matrix) option"
    fix E' :: "('rs, 'm) ext" and thr' pcas' rs k and y :: "error + matrix"
    assume IH: "\<And>E' thr' pcas' rs k y. esc E' thr' pcas' rs k = Some y \<Longrightarrow>
        E' = E \<longrightarrow> thr' = thr \<longrightarrow> pcas' = pcas \<longrightarrow> k0 \<le> k \<longrightarrow> False"
    assume body: "(if k < 3 * k then
        (case np_concatenate_axis1 pcas' of
           Inl e \<Rightarrow> Some (Inl e)
         | Inr m \<Rightarrow>
        (case randomized_svd_U E' m k of
           Inl e \<Rightarrow> Some (Inl e)
         | Inr g \<Rightarrow>
        (case fastica_S E' (map (py_take k) g) rs of
           Inl e \<Rightarrow> Some (Inl e)
         | Inr (s, rs') \<Rightarrow>
            (let ica_maps = np_T s;
                 kurt = map (kurtosis E') ica_maps;
                 kurtosis_mask = map (\<lambda>x. fl_gt x thr') kurt
             in if k \<le> count_true kurtosis_mask
                then (let order = rev (np_argsort (quicksort_ties E') kurt)
                      in Some (Inr (map (\<lambda>i. ica_maps ! i) (py_take k order))))
                else esc E' thr' pcas' rs' (k + 1)))))
      else Some (Inl (ValueError ''Could not find components with high-enough kurtosis''))) = Some y"
    show "E' = E \<longrightarrow> thr' = thr \<longrightarrow> pcas' = pcas \<longrightarrow> k0 \<le> k \<longrightarrow> False"
    proof (intro impI)
      assume eq: "E' = E" "thr' = thr" "pcas' = pcas" and le: "k0 \<le> k"
      from rej[OF le, of rs] obtain g s rs'
        where g: "randomized_svd_U E m k = Inr g"
          and s: "fastica_S E (map (py_take k) g) rs = Inr (s, rs')"
          and c: "count_true (map (\<lambda>x. fl_gt x thr) (map (kurtosis E) (np_T s))) < k"
        by blast
      from pos le have k: "k < 3 * k" by simp
      from body k cat g s c eq
      have "esc E thr pcas rs' (k + 1) = Some y"
        by (simp add: Let_def)
      from IH[OF this] le show False by simp
    qed
  qed
  then show "k0 \<le> k \<Longrightarrow> escalate E thr pcas rs k = None"
    by (cases "escalate E thr pcas rs k") auto
qed

text \<open>The \<open>else\<close> branch of the loop is reached only with a requested count below 1.\<close>

lemma escalate_nonpositive:
  "k \<le> 0 \<Longrightarrow> escalate E thr pcas rs k =
     Some (Inl (ValueError ''Could not find components with high-enough kurtosis''))"
  by (subst escalate.simps) simp

lemma escalate_b_loops:
  "escalate (stub_ext [np_T [cand_b]] kt0) NInf [np_T subject0_std] 0 2 = None"
proof (rule escalate_rejecting [where ?k0.0 = 2, OF concat_subject0])
  fix k :: int and rs :: nat
  assume k: "2 \<le> k"
  have g: "randomized_svd_U (stub_ext [np_T [cand_b]] kt0) (np_T subject0_std) k = Inr (np_T subject0_std)"
    by (simp add: stub_ext_def)
  have s: "fastica_S (stub_ext [np_T [cand_b]] kt0) (map (py_take k) (np_T subject0_std)) rs =
             Inr (np_T [cand_b], Suc rs)"
    by (simp add: stub_ext_def)
  have "count_true (map (\<lambda>x. fl_gt x NInf)
          (map (kurtosis (stub_ext [np_T [cand_b]] kt0)) (np_T (np_T [cand_b])))) = 1"
    by (simp add: T_cands stub_kurtosis count_true_def)
  with k g s
  show "\<exists>g s rs'. randomized_svd_U (stub_ext [np_T [cand_b]] kt0) (np_T subject0_std) k = Inr g \<and>
          fastica_S (stub_ext [np_T [cand_b]] kt0) (map (py_take k) g) rs = Inr (s, rs') \<and>
          count_true (map (\<lambda>x. fl_gt x NInf) (map (kurtosis (stub_ext [np_T [cand_b]] kt0)) (np_T s))) < k"
    by simp
qed simp_all

lemma length_np_argsort: "length (np_argsort ties ks) = length ks"
  by (simp add: np_argsort_def)

lemma count_true_le: "count_true bs \<le> int (length bs)"
  by (simp add: count_true_def)

text \<open>
  What the loop returns has as many rows as the working count of the accepted round,
  that is the count the loop starts with plus some number of increments.
\<close>

lemma escalate_rows:
  fixes E :: "('rs, 'm) ext"
  assumes "escalate E thr pcas rs k = Some (Inr ica_maps)"
  shows "\<exists>j. int (length ica_maps) = k + int j"
proof -
  have "\<forall>ica_maps. y = Inr ica_maps \<longrightarrow> (\<exists>j. int (length ica_maps) = k + int j)"
    if "escalate E thr pcas rs k = Some y" for E :: "('rs, 'm) ext" and thr pcas rs k y
  proof (rule escalate.raw_induct[where
        P = "\<lambda>E thr pcas rs k y. \<forall>ica_maps. y = Inr ica_maps \<longrightarrow> (\<exists>j. int (length ica_maps) = k + int j)",
        OF _ that])
    fix esc :: "('rs, 'm) ext \<Rightarrow> fl \<Rightarrow> matrix list \<Rightarrow> 'rs \<Rightarrow> int \<Rightarrow> (error + matrix) option"
    fix E :: "('rs, 'm) ext" and thr pcas rs k and y :: "error + matrix"
    assume IH: "\<And>E thr pcas rs k y. esc E thr pcas rs k = Some y \<Longrightarrow>
        \<forall>ica_maps. y = Inr ica_maps \<longrightarrow> (\<exists>j. int (length ica_maps) = k + int j)"
    assume body: "(if k < 3 * k then
        (case np_concatenate_axis1 pcas of
           Inl e \<Rightarrow> Some (Inl e)
         | Inr m \<Rightarrow>
        (case randomized_svd_U E m k of
           Inl e \<Rightarrow> Some (Inl e)
         | Inr g \<Rightarrow>
        (case fastica_S E (map (py_take k) g) rs of
           Inl e \<Rightarrow> Some (Inl e)
         | Inr (s, rs') \<Rightarrow>
            (let ica_maps = np_T s;
                 kurt = map (kurtosis E) ica_maps;
                 kurtosis_mask = map (\<lambda>x. fl_gt x thr) kurt
             in if k \<le> count_true kurtosis_mask
                then (let order = rev (np_argsort (quicksort_ties E) kurt)
                      in Some (Inr (map (\<lambda>i. ica_maps ! i) (py_take k order))))
                else esc E thr pcas rs' (k + 1)))))
      else Some (Inl (ValueError ''Could not find components with high-enough kurtosis''))) = Some y"
    show "\<forall>ica_maps. y = Inr ica_maps \<longrightarrow> (\<exists>j. int (length ica_maps) = k + int j)"
    proof (intro allI impI)
      fix res
      assume y: "y = Inr res"
      from body y have k: "k < 3 * k"
        by (simp split: if_splits)
      from body y k obtain m where m: "np_concatenate_axis1 pcas = Inr m"
        by (cases "np_concatenate_axis1 pcas") simp_all
      from body y k m obtain g where g: "randomized_svd_U E m k = Inr g"
        by (cases "randomized_svd_U E m k") simp_all
      from body y k m g obtain s rs' where s: "fastica_S E (map (py_take k) g) rs = Inr (s, rs')"
        by (cases "fastica_S E (map (py_take k) g) rs") auto
      show "\<exists>j. int (length res) = k + int j"
      proof (cases "k \<le> count_true (map (\<lambda>x. fl_gt x thr) (map (kurtosis E) (np_T s)))")
        case True
        with body y k m g s
        have r: "res = map (\<lambda>i. np_T s ! i) (py_take k (rev (np_argsort (quicksort_ties E) (map (kurtosis E) (np_T s)))))"
          by (simp add: Let_def)
        from True count_true_le [of "map (\<lambda>x. fl_gt x thr) (map (kurtosis E) (np_T s))"]
        have "k \<le> int (length (np_T s))"
          by simp
        with k have "int (length res) = k"
          unfolding r by (simp add: py_take_def length_np_argsort)
        then have "int (length res) = k + int 0"
          by simp
        then show ?thesis ..
      next
        case False
        with body y k m g s have "esc E thr pcas rs' (k + 1) = Some (Inr res)"
          by (simp add: Let_def)
        from IH [OF this] obtain j where "int (length res) = k + 1 + int j"
          by blast
        then have "int (length res) = k + int (Suc j)"
          by simp
        then show ?thesis ..
      qed
    qed
  qed
  from this [OF assms] show ?thesis
    by simp
qed

text \<open>
  C1. A run of \<open>fit\<close> with \<open>n_components = 2\<close>: the first round (working count 2) has a
  candidate whose kurtosis is NaN and is rejected, the second round (working count 3) is
  accepted, and \<open>maps_\<close> has three rows.
\<close>

theorem fit_escalated_three_rows:
  "n_components stub_self = 2 \<and>
   fit (stub_ext [np_T [cand_z, cand_b], np_T [cand_b, cand_a, cand_c]] kt0) stub_self
       [subject0] (PyList [0]) =
     Some (Inr (),
           stub_self\<lparr>self_maps := Some [[2, 0, 1, 1/2], [0, 1, -2, 0], [0, -3, 1/2, 0]],
                     learned := Some ()\<rparr>,
           [subject0, subject0_std])"
  using fit_stub_accepts [OF escalate_zb_bac]
  by (simp add: threshold_cands stub_self_fields)

text \<open>
  C2. A run of \<open>fit\<close> with \<open>n_components = 2\<close> in which every round yields one candidate:
  no round is accepted, and \<open>fit\<close> neither returns nor raises.
\<close>

theorem fit_never_accepting_loops:
  "fit (stub_ext [np_T [cand_b]] kt0) stub_self [subject0] (PyList [0]) = None"
  using fit_loops [OF stub_random_state copy_subject0 reduce_subject0_plain, of "[np_T [cand_b]]" kt0]
    escalate_b_loops
  by (simp add: stub_self_fields)

text \<open>
  C3. A run of \<open>fit\<close> with \<open>n_components = 2\<close>: in the round with working count 3 two
  candidates pass, which reaches the requested count, yet the round is rejected; the next
  round (working count 4) is accepted and all four candidates are kept.
\<close>

theorem fit_compares_with_working_count:
  "n_components stub_self = 2 \<and>
   count_true (map (\<lambda>x. fl_gt x NInf) (map (kurtosis (stub_ext rounds kt0)) [cand_z, cand_b, cand_c])) = 2 \<and>
   fit (stub_ext [np_T [cand_z, cand_b], np_T [cand_z, cand_b, cand_c],
                  np_T [cand_b, cand_a, cand_c, cand_d]] kt0) stub_self
       [subject0] (PyList [0]) =
     Some (Inr (),
           stub_self\<lparr>self_maps := Some [[2, 0, 1, 1/2], [5, 0, 0, 1], [0, 1, -2, 0], [0, -3, 1/2, 0]],
                     learned := Some ()\<rparr>,
           [subject0, subject0_std])"
  using fit_stub_accepts [OF escalate_zb_zbc_bacd]
  by (simp add: threshold_cands stub_self_fields stub_kurtosis count_true_def)

subsection \<open>A configured kurtosis threshold (C5)\<close>

text \<open>
  A run of \<open>fit\<close> with \<open>kurtosis_thr = 0.5\<close>, on collaborators whose two candidates have
  kurtosis 4 and 1: \<open>fit\<close> raises UnboundLocalError and \<open>maps_\<close> stays unset.
\<close>

lemma fit_threshold_half_raises:
  "fit (stub_ext [np_T [cand_a, cand_b]] kt0) (stub_self\<lparr>kurtosis_thr := Some (1/2)\<rparr>)
       [subject0] (PyList [0]) =
     Some (Inl UnboundLocalError, stub_self\<lparr>kurtosis_thr := Some (1/2)\<rparr>, [subject0, subject0_std])"
  by (rule fit_unbound [where t = "1/2", OF stub_random_state copy_subject0 reduce_subject0]) simp

text \<open>With \<open>kurtosis_thr\<close> configured there is no call of \<open>fit\<close> that returns.\<close>

lemma fit_threshold_never_returns:
  assumes "kurtosis_thr self = Some t"
  shows "fit E self h data \<noteq> Some (Inr u, self', h')"
  using assms by (auto simp: fit_def Let_def split: sum.splits prod.splits)

text \<open>
  C5, as stated, fails: with smoothing requested and no mask the assertion of the
  per-subject loop is raised, not UnboundLocalError.
\<close>

theorem fit_threshold_assertion_first:
  "kurtosis_thr (stub_self\<lparr>smooth := Some 1, kurtosis_thr := Some (1/2)\<rparr>) = Some (1/2) \<and>
   fit (stub_ext [np_T [cand_a, cand_b]] kt0) (stub_self\<lparr>smooth := Some 1, kurtosis_thr := Some (1/2)\<rparr>)
       [subject0] (PyList [0]) =
     Some (Inl AssertionError, stub_self\<lparr>smooth := Some 1, kurtosis_thr := Some (1/2)\<rparr>,
           [subject0, subject0_centered])"
  using fit_reduce_raises [OF stub_random_state copy_subject0 reduce_subject0_no_mask]
  by simp

lemma smooth_rows_group_ext:
  "smooth_rows (E\<lparr>randomized_svd_U := f1, fastica_S := f2, kurtosis := f3, quicksort_ties := f5,
        learn_from_maps := f4\<rparr>)
     mk v map3d rows = smooth_rows E mk v map3d rows"
  by (induction rows arbitrary: map3d) (simp_all split: sum.splits)

lemma reduce_subject_group_ext:
  "reduce_subject (E\<lparr>randomized_svd_U := f1, fastica_S := f2, kurtosis := f3, quicksort_ties := f5,
        learn_from_maps := f4\<rparr>)
     self h a = reduce_subject E self h a"
proof -
  have a: "smooth_from_mask (E\<lparr>randomized_svd_U := f1, fastica_S := f2, kurtosis := f3, quicksort_ties := f5,
        learn_from_maps := f4\<rparr>)
          h' a' mk v cp = smooth_from_mask E h' a' mk v cp" for h' a' mk v cp
    unfolding smooth_from_mask_def smooth_rows_group_ext ..
  have b: "svd_U (E\<lparr>randomized_svd_U := f1, fastica_S := f2, kurtosis := f3, quicksort_ties := f5,
        learn_from_maps := f4\<rparr>)
          = svd_U E"
    by simp
  show ?thesis
    unfolding reduce_subject_def a b ..
qed

lemma reduce_subjects_group_ext:
  "reduce_subjects (E\<lparr>randomized_svd_U := f1, fastica_S := f2, kurtosis := f3, quicksort_ties := f5,
        learn_from_maps := f4\<rparr>)
     self h as pcas = reduce_subjects E self h as pcas"
  by (induction as arbitrary: h pcas) (simp_all add: reduce_subject_group_ext split: prod.splits sum.splits)

text \<open>
  C5, amended. With \<open>kurtosis_thr\<close> configured, \<open>fit\<close> always raises and leaves the object
  as it was; once the random state is resolved and the per-subject loop has completed,
  what it raises is UnboundLocalError; and the result does not depend on the group-level
  collaborators (randomized SVD, FastICA, kurtosis, the sort, \<open>learn_from_maps\<close>), which
  are not called.
\<close>

theorem fit_configured_threshold_raises:
  assumes "kurtosis_thr self = Some t"
  shows "(\<exists>e h'. fit E self h data = Some (Inl e, self, h')) \<and>
         (\<forall>rs pcas h1. check_random_state E (random_state self) = Inr rs \<longrightarrow>
            reduce_subjects E self (snd (copy_data h data)) (fst (copy_data h data)) [] = (Inr pcas, h1) \<longrightarrow>
            fit E self h data = Some (Inl UnboundLocalError, self, h1)) \<and>
         fit (E\<lparr>randomized_svd_U := f1, fastica_S := f2, kurtosis := f3, quicksort_ties := f5,
                learn_from_maps := f4\<rparr>) self h data =
           fit E self h data"
proof (intro conjI allI impI)
  show "\<exists>e h'. fit E self h data = Some (Inl e, self, h')"
    using assms by (auto simp: fit_def Let_def split: sum.splits prod.splits)
next
  fix rs pcas h1
  assume "check_random_state E (random_state self) = Inr rs"
    and "reduce_subjects E self (snd (copy_data h data)) (fst (copy_data h data)) [] = (Inr pcas, h1)"
  then show "fit E self h data = Some (Inl UnboundLocalError, self, h1)"
    using assms by (intro fit_unbound [where ?h0.0 = "snd (copy_data h data)"]) simp_all
next
  show "fit (E\<lparr>randomized_svd_U := f1, fastica_S := f2, kurtosis := f3, quicksort_ties := f5,
                learn_from_maps := f4\<rparr>) self h data =
           fit E self h data"
    using assms by (simp add: fit_def reduce_subjects_group_ext Let_def split: sum.splits prod.splits)
qed

theorem fit_configured_threshold_raises_witness:
  "kurtosis_thr (stub_self\<lparr>kurtosis_thr := Some 3\<rparr>) = Some 3 \<and>
   check_random_state (stub_ext [] []) (random_state (stub_self\<lparr>kurtosis_thr := Some 3\<rparr>)) = Inr 0 \<and>
   reduce_subjects (stub_ext [] []) (stub_self\<lparr>kurtosis_thr := Some 3\<rparr>)
     (snd (copy_data [subject0] (PyList [0]))) (fst (copy_data [subject0] (PyList [0]))) [] =
     (Inr [np_T subject0_std], [subject0, subject0_std]) \<and>
   fit (stub_ext [] []) (stub_self\<lparr>kurtosis_thr := Some 3\<rparr>) [subject0] (PyList [0]) =
     Some (Inl UnboundLocalError, stub_self\<lparr>kurtosis_thr := Some 3\<rparr>, [subject0, subject0_std])"
proof -
  have t: "kurtosis_thr (stub_self\<lparr>kurtosis_thr := Some 3\<rparr>) = Some 3"
    by simp
  have r: "reduce_subjects (stub_ext [] []) (stub_self\<lparr>kurtosis_thr := Some 3\<rparr>)
     (snd (copy_data [subject0] (PyList [0]))) (fst (copy_data [subject0] (PyList [0]))) [] =
     (Inr [np_T subject0_std], [subject0, subject0_std])"
    by (simp add: copy_subject0 reduce_subject0 del: reduce_subjects.simps)
  from fit_configured_threshold_raises [OF t, of "stub_ext [] []" "[subject0]" "PyList [0]"]
    t r stub_random_state [of "[]" "[]"]
  show ?thesis by blast
qed

subsection \<open>Thresholding (C6)\<close>

lemma ncols_threshold_maps: "ncols (threshold_maps t m) = ncols m"
  by (cases m) (simp_all add: threshold_maps_def ncols_def)

lemma threshold_maps_entries:
  "list_all2 (list_all2 (\<lambda>y x. y = (if \<bar>x\<bar> < t / sqrt (real (ncols m)) then 0 else x) \<and>
       (t / sqrt (real (ncols m)) \<le> \<bar>y\<bar> \<or> y = 0)))
     (threshold_maps t m) m"
  unfolding threshold_maps_def
  by (simp add: list_all2_map1 list_all2_refl)

lemma fit_returned:
  assumes "fit E self h data = Some (Inr u, self', h')"
  shows "\<exists>pcas rs ica_maps. escalate E NInf pcas rs (n_components self) = Some (Inr ica_maps) \<and>
           self_maps self' = Some (threshold_maps (threshold self) ica_maps)"
proof -
  from assms obtain rs where rs: "check_random_state E (random_state self) = Inr rs"
    by (auto simp: fit_def split: sum.splits)
  obtain copies h0 where c: "copy_data h data = (copies, h0)"
    by (cases "copy_data h data")
  from assms rs c obtain pcas h1 where r: "reduce_subjects E self h0 copies [] = (Inr pcas, h1)"
    by (cases "reduce_subjects E self h0 copies []"; cases "fst (reduce_subjects E self h0 copies [])")
       (auto simp: fit_def)
  from assms rs c r have t: "kurtosis_thr self = None"
    by (cases "kurtosis_thr self") (auto simp: fit_def)
  from assms rs c r t obtain ica_maps
    where e: "escalate E NInf pcas rs (n_components self) = Some (Inr ica_maps)"
    by (cases "escalate E NInf pcas rs (n_components self)")
       (auto simp: fit_def split: sum.splits)
  from assms rs c r t e
  have "self_maps self' = Some (threshold_maps (threshold self) ica_maps)"
    by (auto simp: fit_def Let_def split: if_splits sum.splits)
  with e show ?thesis by blast
qed

text \<open>
  C6. When \<open>fit\<close> returns, \<open>maps_\<close> is the matrix of the accepted candidates in which
  every entry of absolute value below \<open>threshold / sqrt(shape[1])\<close> is replaced by zero and
  every other entry is kept; so each entry is zero or at least the cutoff in absolute value.
\<close>

theorem fit_sparsified:
  assumes "fit E self h data = Some (Inr u, self', h')"
  shows "\<exists>ica_maps fm.
           (\<exists>pcas rs. escalate E NInf pcas rs (n_components self) = Some (Inr ica_maps)) \<and>
           self_maps self' = Some fm \<and> ncols fm = ncols ica_maps \<and>
           list_all2 (list_all2 (\<lambda>y x.
               y = (if \<bar>x\<bar> < threshold self / sqrt (real (ncols fm)) then 0 else x) \<and>
               (threshold self / sqrt (real (ncols fm)) \<le> \<bar>y\<bar> \<or> y = 0)))
             fm ica_maps"
proof -
  from fit_returned [OF assms] obtain pcas rs ica_maps
    where e: "escalate E NInf pcas rs (n_components self) = Some (Inr ica_maps)"
      and m: "self_maps self' = Some (threshold_maps (threshold self) ica_maps)"
    by blast
  define fm where "fm = threshold_maps (threshold self) ica_maps"
  have n: "ncols fm = ncols ica_maps"
    unfolding fm_def by (rule ncols_threshold_maps)
  have l: "list_all2 (list_all2 (\<lambda>y x.
          y = (if \<bar>x\<bar> < threshold self / sqrt (real (ncols fm)) then 0 else x) \<and>
          (threshold self / sqrt (real (ncols fm)) \<le> \<bar>y\<bar> \<or> y = 0))) fm ica_maps"
    unfolding n unfolding fm_def by (rule threshold_maps_entries)
  from e have e': "\<exists>pcas rs. escalate E NInf pcas rs (n_components self) = Some (Inr ica_maps)"
    by (intro exI)
  from m have m': "self_maps self' = Some fm"
    by (simp add: fm_def)
  show ?thesis
    by (rule exI [of _ ica_maps], rule exI [of _ fm]) (intro conjI e' m' n l)
qed

theorem fit_sparsified_witness:
  "fit (stub_ext [np_T [cand_a, cand_b]] kt0) stub_self [subject0] (PyList [0]) =
     Some (Inr (),
           stub_self\<lparr>self_maps := Some [[2, 0, 1, 1/2], [0, -3, 1/2, 0]], learned := Some ()\<rparr>,
           [subject0, subject0_std]) \<and>
   (\<exists>ica_maps :: matrix.
      list_all2 (list_all2 (\<lambda>y x.
          y = (if \<bar>x\<bar> < 1 / 2 then 0 else x) \<and> (1 / 2 \<le> \<bar>y\<bar> \<or> y = 0)))
        [[2, 0, 1, 1/2], [0, -3, 1/2, 0]] ica_maps)"
proof -
  have ev: "fit (stub_ext [np_T [cand_a, cand_b]] kt0) stub_self [subject0] (PyList [0]) =
     Some (Inr (),
           stub_self\<lparr>self_maps := Some [[2, 0, 1, 1/2], [0, -3, 1/2, 0]], learned := Some ()\<rparr>,
           [subject0, subject0_std])"
    using fit_stub_accepts [OF escalate_ab] by (simp add: threshold_cands)
  from fit_sparsified [OF ev] obtain ica_maps fm where
    m: "self_maps (stub_self\<lparr>self_maps := Some [[2, 0, 1, 1/2], [0, -3, 1/2, 0]], learned := Some ()\<rparr>) = Some fm"
    and l: "list_all2 (list_all2 (\<lambda>y x.
          y = (if \<bar>x\<bar> < threshold stub_self / sqrt (real (ncols fm)) then 0 else x) \<and>
          (threshold stub_self / sqrt (real (ncols fm)) \<le> \<bar>y\<bar> \<or> y = 0))) fm ica_maps"
    by blast
  from m have fm: "fm = [[2, 0, 1, 1/2], [0, -3, 1/2, 0]]"
    by simp
  have c: "threshold stub_self / sqrt (real (ncols fm)) = 1 / 2"
    unfolding fm by (simp add: ncols_def stub_self_def)
  from l have "list_all2 (list_all2 (\<lambda>y x.
          y = (if \<bar>x\<bar> < 1 / 2 then 0 else x) \<and> (1 / 2 \<le> \<bar>y\<bar> \<or> y = 0)))
        [[2, 0, 1, 1/2], [0, -3, 1/2, 0]] ica_maps"
    unfolding c unfolding fm .
  then have "\<exists>ica_maps :: matrix. list_all2 (list_all2 (\<lambda>y x.
          y = (if \<bar>x\<bar> < 1 / 2 then 0 else x) \<and> (1 / 2 \<le> \<bar>y\<bar> \<or> y = 0)))
        [[2, 0, 1, 1/2], [0, -3, 1/2, 0]] ica_maps"
    by (rule exI)
  with ev show ?thesis by (intro conjI)
qed

subsection \<open>The caller's arrays (C10)\<close>

lemma ndarray_copy_fresh:
  "ndarray_copy h as = (as', h') \<Longrightarrow> n \<le> length h \<Longrightarrow>
     length h \<le> length h' \<and> take n h' = take n h \<and> list_all (\<lambda>a. n \<le> a) as'"
proof (induction as arbitrary: h as' h')
  case Nil
  then show ?case by simp
next
  case (Cons a as)
  obtain bs h2 where r: "ndarray_copy (h @ [h ! a]) as = (bs, h2)"
    by (cases "ndarray_copy (h @ [h ! a]) as")
  from Cons.prems(1) r have eq: "as' = length h # bs" "h' = h2"
    by (simp_all add: array_copy_def)
  from Cons.IH[OF r] Cons.prems(2)
  have "length (h @ [h ! a]) \<le> length h2 \<and> take n h2 = take n (h @ [h ! a]) \<and>
        list_all (\<lambda>a. n \<le> a) bs"
    by simp
  with Cons.prems(2) eq show ?case by simp
qed

lemma deepcopy_fresh:
  "deepcopy h memo as = (as', h') \<Longrightarrow> n \<le> length h \<Longrightarrow>
     list_all (\<lambda>p. n \<le> snd p) memo \<Longrightarrow>
     length h \<le> length h' \<and> take n h' = take n h \<and> list_all (\<lambda>a. n \<le> a) as'"
proof (induction as arbitrary: h memo as' h')
  case Nil
  then show ?case by simp
next
  case (Cons a as)
  show ?case
  proof (cases "map_of memo a")
    case None
    obtain bs h2 where r: "deepcopy (h @ [h ! a]) ((a, length h) # memo) as = (bs, h2)"
      by (cases "deepcopy (h @ [h ! a]) ((a, length h) # memo) as")
    from Cons.prems(1) None r have eq: "as' = length h # bs" "h' = h2"
      by (simp_all add: array_copy_def)
    have "length (h @ [h ! a]) \<le> length h2 \<and> take n h2 = take n (h @ [h ! a]) \<and>
          list_all (\<lambda>a. n \<le> a) bs"
      using Cons.prems(2,3) by (intro Cons.IH[OF r]) simp_all
    with Cons.prems(2) eq show ?thesis by simp
  next
    case (Some b)
    obtain bs h2 where r: "deepcopy h memo as = (bs, h2)"
      by (cases "deepcopy h memo as")
    from Cons.prems(1) Some r have eq: "as' = b # bs" "h' = h2"
      by simp_all
    from Some have "(a, b) \<in> set memo" by (rule map_of_SomeD)
    with Cons.prems(3) have "n \<le> b" by (auto simp: list_all_iff)
    with Cons.IH[OF r Cons.prems(2,3)] eq show ?thesis by simp
  qed
qed

text \<open>
  For a float array and for a list the copies are new cells, and the cells that existed
  before are as they were.
\<close>

lemma copy_data_fresh:
  assumes "copy_data h data = (copies, h0)" and "\<And>as. data \<noteq> ObjArray as"
  shows "length h \<le> length h0 \<and> take (length h) h0 = h \<and> list_all (\<lambda>a. length h \<le> a) copies"
proof (cases data)
  case (NdArray as)
  with assms have "ndarray_copy h as = (copies, h0)" by (simp add: copy_data_def)
  from ndarray_copy_fresh[OF this, of "length h"] show ?thesis by simp
next
  case (PyList as)
  with assms have "deepcopy h [] as = (copies, h0)" by (simp add: copy_data_def)
  from deepcopy_fresh[OF this, of "length h"] show ?thesis by simp
next
  case (ObjArray as)
  with assms(2) [of as] show ?thesis by simp
qed

lemma smooth_from_mask_frame:
  assumes "smooth_from_mask E h a mk v False = (r, h')" "n \<le> a"
  shows "length h' = length h \<and> take n h' = take n h \<and> (\<forall>b. r = Inr b \<longrightarrow> b = a)"
  using assms
  by (auto simp: smooth_from_mask_def Let_def split: prod.splits option.splits)

text \<open>The loop body for a subject stored at or above \<open>n\<close> writes at or above \<open>n\<close> only.\<close>

lemma reduce_subject_frame:
  assumes "reduce_subject E self h a = (r, h')" "n \<le> a" "n \<le> length h"
  shows "length h \<le> length h' \<and> take n h' = take n h"
proof (cases "truthy (smooth self)")
  case False
  with assms show ?thesis
    by (auto simp: reduce_subject_def Let_def split: sum.splits)
next
  case True
  show ?thesis
  proof (cases "mask_vol self")
    case None
    with True assms show ?thesis
      by (auto simp: reduce_subject_def Let_def)
  next
    case (Some mk)
    obtain q h2 where s:
      "smooth_from_mask E (h[a := center (h ! a)]) a mk (the (smooth self)) False = (q, h2)"
      by (cases "smooth_from_mask E (h[a := center (h ! a)]) a mk (the (smooth self)) False")
    from smooth_from_mask_frame[OF s assms(2)] assms(2)
    have f: "length h2 = length h" "take n h2 = take n h"
      by simp_all
    show ?thesis
    proof (cases q)
      case (Inl e)
      with True Some s assms(1) f show ?thesis
        by (auto simp: reduce_subject_def Let_def)
    next
      case (Inr b)
      with True Some s assms f show ?thesis
        by (auto simp: reduce_subject_def Let_def array_copy_def split: sum.splits)
    qed
  qed
qed

lemma reduce_subjects_frame:
  "reduce_subjects E self h as pcas = (r, h') \<Longrightarrow> list_all (\<lambda>a. n \<le> a) as \<Longrightarrow>
     n \<le> length h \<Longrightarrow> length h \<le> length h' \<and> take n h' = take n h"
proof (induction as arbitrary: h pcas)
  case Nil
  then show ?case by simp
next
  case (Cons a as)
  obtain q h1 where s: "reduce_subject E self h a = (q, h1)"
    by (cases "reduce_subject E self h a")
  from Cons.prems have na: "n \<le> a" and nas: "list_all (\<lambda>a. n \<le> a) as" by simp_all
  from reduce_subject_frame[OF s na Cons.prems(3)]
  have f: "length h \<le> length h1" "take n h1 = take n h" by simp_all
  show ?case
  proof (cases q)
    case (Inl e)
    with Cons.prems(1) s f show ?thesis by simp
  next
    case (Inr p)
    with Cons.prems(1) s have "reduce_subjects E self h1 as (pcas @ [p]) = (r, h')" by simp
    from Cons.IH[OF this nas] f Cons.prems(3) show ?thesis by simp
  qed
qed

lemma fit_store:
  assumes "fit E self h data = Some (r, self', h')"
  shows "h' = h \<or> (\<exists>copies h0 q. copy_data h data = (copies, h0) \<and>
           reduce_subjects E self h0 copies [] = (q, h'))"
  using assms
  by (auto simp: fit_def Let_def split: sum.splits prod.splits option.splits if_splits)

text \<open>
  When \<open>data\<close> is a float array or a list, whatever \<open>fit\<close> does (return or raise), every
  array that existed when it was called has the value it had: \<open>fit\<close> writes only to the
  cells it allocated itself.
\<close>

lemma fit_frame_private_copy:
  assumes "fit E self h data = Some (r, self', h')" and obj: "\<And>as. data \<noteq> ObjArray as"
  shows "length h \<le> length h' \<and> take (length h) h' = h"
proof -
  from fit_store[OF assms(1)] show ?thesis
  proof
    assume "h' = h" then show ?thesis by simp
  next
    assume "\<exists>copies h0 q. copy_data h data = (copies, h0) \<and>
              reduce_subjects E self h0 copies [] = (q, h')"
    then obtain copies h0 q where c: "copy_data h data = (copies, h0)"
      and rs: "reduce_subjects E self h0 copies [] = (q, h')" by blast
    from copy_data_fresh[OF c obj]
    have f: "length h \<le> length h0" "take (length h) h0 = h"
      "list_all (\<lambda>a. length h \<le> a) copies"
      by simp_all
    from reduce_subjects_frame[OF rs f(3) f(1)] f show ?thesis by simp
  qed
qed

lemma copy_object_array:
  "copy_data [subject0, subject1] (ObjArray [0, 1]) = ([0, Suc 0], [subject0, subject1])"
  by (simp add: copy_data_def)

lemma reduce_object_array:
  "reduce_subjects (stub_ext rounds kt) stub_self [subject0, subject1] [0, Suc 0] [] =
     (Inr [np_T subject0_std, np_T subject1_std], [subject0_std, subject1_std])"
  by (simp add: reduce_subject_def stub_ext_def stub_self_def truthy_def subject0_def
      subject0_std_def subject1_def subject1_std_def array_defs)

lemma concat_object_array:
  "np_concatenate_axis1 [np_T subject0_std, np_T subject1_std] =
     Inr [[-1, 1, -1, 1, -1, 1], [0, 0, 0, 0, 0, 0], [-1, 1, -1, 1, -1, 1], [0, 0, 0, 0, 0, 0]]"
  by (simp add: np_concatenate_axis1_def subject0_std_def subject1_std_def array_defs)

lemma escalate_object_array:
  "escalate (stub_ext [np_T [cand_a, cand_b]] kt0) NInf [np_T subject0_std, np_T subject1_std] 0 2 =
     Some (Inr [cand_a, cand_b])"
  apply (subst stub_step [OF concat_object_array])
  apply (simp add: T_cands stub_kurtosis count_true_def np_argsort_def py_take_def)
  done

text \<open>
  C10. A run of \<open>fit\<close> on an object array of two subjects with two and four samples:
  \<open>data.copy()\<close> shares the subjects with the caller, and when \<open>fit\<close> returns both of the
  caller's arrays hold the standardized data instead of their values.
\<close>

theorem fit_overwrites_object_array:
  "fit (stub_ext [np_T [cand_a, cand_b]] kt0) stub_self [subject0, subject1] (ObjArray [0, 1]) =
     Some (Inr (),
           stub_self\<lparr>self_maps := Some [[2, 0, 1, 1/2], [0, -3, 1/2, 0]], learned := Some ()\<rparr>,
           [subject0_std, subject1_std]) \<and>
   subject0_std \<noteq> subject0 \<and> subject1_std \<noteq> subject1"
proof -
  have "fit (stub_ext [np_T [cand_a, cand_b]] kt0) stub_self [subject0, subject1] (ObjArray [0, 1]) =
     Some (Inr (),
           stub_self\<lparr>self_maps := Some (threshold_maps (threshold stub_self) [cand_a, cand_b]),
                     learned := Some ()\<rparr>,
           [subject0_std, subject1_std])"
    by (rule fit_accepts [OF stub_random_state copy_object_array reduce_object_array])
       (simp_all add: stub_self_fields stub_learn escalate_object_array)
  moreover have "subject0_std \<noteq> subject0" "subject1_std \<noteq> subject1"
    by (simp_all add: subject0_def subject0_std_def subject1_def subject1_std_def)
  ultimately show ?thesis
    by (simp add: stub_self_fields threshold_cands)
qed

subsection \<open>Order of the accepted candidates (C7)\<close>














subsection \<open>\<open>transform\<close> (C8)\<close>

lemma length_np_T: "length (np_T m) = ncols m"
  by (simp add: np_T_def)

lemma column_map: "column (map f xs) i = map (\<lambda>x. f x ! i) xs"
  by (simp add: column_def comp_def)

lemma np_T_np_T:
  assumes "rect m" "0 < ncols m"
  shows "np_T (np_T m) = m"
proof -
  have n: "ncols (np_T m) = length m"
    using assms(2) by (simp add: np_T_def ncols_def column_def upt_conv_Cons split: list.splits)
  have "column (np_T m) i = m ! i" if "i < length m" for i
  proof -
    from assms(1) that have "length (m ! i) = ncols m"
      by (simp add: rect_def list_all_length)
    then have "map (\<lambda>j. m ! i ! j) [0..<ncols m] = m ! i"
      using map_nth [of "m ! i"] by simp
    moreover have "map (\<lambda>j. column m j ! i) [0..<ncols m] = map (\<lambda>j. m ! i ! j) [0..<ncols m]"
      using that by (simp add: column_def)
    moreover have "column (np_T m) i = map (\<lambda>j. column m j ! i) [0..<ncols m]"
      by (simp only: np_T_def column_map)
    ultimately show ?thesis
      by simp
  qed
  then have "map (column (np_T m)) [0..<length m] = map (\<lambda>i. m ! i) [0..<length m]"
    by simp
  then show ?thesis
    unfolding np_T_def [of "np_T m"] n by (simp add: map_nth)
qed

text \<open>
  \<open>transform\<close> returns a new array, the product of the argument and the transpose of
  \<open>maps_\<close>, and leaves the object and the existing arrays as they are.
\<close>

lemma transform_value:
  assumes "self_maps self = Some m" "rect m" "0 < ncols m"
    and "list_all (\<lambda>r. length r = ncols m) (h ! p)"
  shows "transform self h p = (Inr (length h), self, h @ [times_T (h ! p) m])"
  using assms by (simp add: transform_def np_dot_def length_np_T np_T_np_T times_T_def)

text \<open>Where no operation rounds, the float64 results are the real ones.\<close>

lemma exact_sum_foldl:
  "exact_sum acc ps \<Longrightarrow>
     foldl (\<lambda>acc (u, v). f64 (acc + f64 (u * v))) acc ps = acc + sum_list (map (\<lambda>(u, v). u * v) ps)"
  by (induction acc ps rule: exact_sum.induct) simp_all

lemma exact_dot_real: "exact_dot x y \<Longrightarrow> dot x y = sum_list (map2 (*) x y)"
  using exact_sum_foldl [of 0 "zip x y"] by (simp add: exact_dot_def dot_def)

lemma lin_row_real:
  "list_all2 (exact_lin a b) r1 r2 \<Longrightarrow> lin_row a r1 b r2 = map2 (\<lambda>u v. a * u + b * v) r1 r2"
  by (induction r1 r2 rule: list_all2_induct) (simp_all add: lin_row_def exact_lin_def)

lemma real_dot_lin:
  fixes a b :: real
  shows "length r1 = length r2 \<Longrightarrow>
     sum_list (map2 (*) (map2 (\<lambda>u v. a * u + b * v) r1 r2) c) =
     a * sum_list (map2 (*) r1 c) + b * sum_list (map2 (*) r2 c)"
proof (induction r1 r2 arbitrary: c rule: list_induct2)
  case Nil
  then show ?case by simp
next
  case (Cons x xs y ys)
  show ?case
  proof (cases c)
    case Nil
    then show ?thesis by simp
  next
    case (Cons z zs)
    with Cons.IH [of zs] show ?thesis
      by (simp add: algebra_simps)
  qed
qed

lemma dot_lin_exact:
  assumes "list_all2 (exact_lin a b) r1 r2"
    and "exact_dot r1 c" "exact_dot r2 c" "exact_dot (lin_row a r1 b r2) c"
  shows "dot (lin_row a r1 b r2) c = a * dot r1 c + b * dot r2 c"
proof -
  from assms(1) have l: "length r1 = length r2"
    by (rule list_all2_lengthD)
  have "dot (lin_row a r1 b r2) c = sum_list (map2 (*) (lin_row a r1 b r2) c)"
    by (rule exact_dot_real [OF assms(4)])
  also have "\<dots> = sum_list (map2 (*) (map2 (\<lambda>u v. a * u + b * v) r1 r2) c)"
    by (simp only: lin_row_real [OF assms(1)])
  also have "\<dots> = a * sum_list (map2 (*) r1 c) + b * sum_list (map2 (*) r2 c)"
    by (rule real_dot_lin [OF l])
  also have "\<dots> = a * dot r1 c + b * dot r2 c"
    by (simp only: exact_dot_real [OF assms(2)] exact_dot_real [OF assms(3)])
  finally show ?thesis .
qed

lemma row_lin_exact:
  assumes "list_all2 (exact_lin a b) r1 r2"
  shows "list_all (exact_dot r1) m \<Longrightarrow> list_all (exact_dot r2) m \<Longrightarrow>
     list_all (exact_dot (lin_row a r1 b r2)) m \<Longrightarrow>
     list_all2 (exact_lin a b) (map (dot r1) m) (map (dot r2) m) \<Longrightarrow>
     map (dot (lin_row a r1 b r2)) m = lin_row a (map (dot r1) m) b (map (dot r2) m)"
proof (induction m)
  case Nil
  then show ?case by (simp add: lin_row_def)
next
  case (Cons c m)
  from Cons.prems have d: "dot (lin_row a r1 b r2) c = a * dot r1 c + b * dot r2 c"
    by (intro dot_lin_exact assms) simp_all
  from Cons.prems have e: "exact_lin a b (dot r1 c) (dot r2 c)"
    by simp
  from Cons.prems have "map (dot (lin_row a r1 b r2)) m = lin_row a (map (dot r1) m) b (map (dot r2) m)"
    by (intro Cons.IH) simp_all
  with d e show ?case
    by (simp add: lin_row_def exact_lin_def)
qed

lemma times_T_lin_exact:
  assumes "list_all2 (list_all2 (exact_lin a b)) x1 x2"
  shows "list_all (\<lambda>r. list_all (exact_dot r) m) x1 \<Longrightarrow>
     list_all (\<lambda>r. list_all (exact_dot r) m) x2 \<Longrightarrow>
     list_all (\<lambda>r. list_all (exact_dot r) m) (lin_comb a x1 b x2) \<Longrightarrow>
     list_all2 (list_all2 (exact_lin a b)) (times_T x1 m) (times_T x2 m) \<Longrightarrow>
     times_T (lin_comb a x1 b x2) m = lin_comb a (times_T x1 m) b (times_T x2 m)"
  using assms
proof (induction x1 x2 rule: list_all2_induct)
  case Nil
  then show ?case by (simp add: times_T_def lin_comb_def)
next
  case (Cons r1 x1 r2 x2)
  from Cons.prems Cons.hyps(1)
  have "map (dot (lin_row a r1 b r2)) m = lin_row a (map (dot r1) m) b (map (dot r2) m)"
    by (intro row_lin_exact) (simp_all add: lin_comb_def times_T_def)
  moreover from Cons.prems
  have "times_T (lin_comb a x1 b x2) m = lin_comb a (times_T x1 m) b (times_T x2 m)"
    by (intro Cons.IH) (simp_all add: lin_comb_def times_T_def)
  ultimately show ?case
    by (simp add: lin_comb_def times_T_def)
qed

text \<open>
  C8, as stated, fails: with \<open>maps_ = [[1, 1, 1]]\<close>, \<open>x1 = [[2^53, 0, 0]]\<close> and
  \<open>x2 = [[0, 1, 1]]\<close> the sum \<open>x1 + x2\<close> is \<open>[[2^53, 1, 1]]\<close> and its transform is
  \<open>[[2^53]]\<close>, since \<open>2^53 + 1\<close> rounds to \<open>2^53\<close>, while the transforms of \<open>x1\<close> and \<open>x2\<close>
  add up to \<open>[[2^53 + 2]]\<close>.
\<close>

theorem transform_rounds:
  "lin_comb 1 [[2^53, 0, 0]] 1 [[0, 1, 1]] = [[2^53, 1, 1]] \<and>
   transform (stub_self\<lparr>self_maps := Some [[1, 1, 1]]\<rparr>)
     [[[2^53, 0, 0]], [[0, 1, 1]], [[2^53, 1, 1]]] 0 =
     (Inr 3, stub_self\<lparr>self_maps := Some [[1, 1, 1]]\<rparr>,
      [[[2^53, 0, 0]], [[0, 1, 1]], [[2^53, 1, 1]], [[2^53]]]) \<and>
   transform (stub_self\<lparr>self_maps := Some [[1, 1, 1]]\<rparr>)
     [[[2^53, 0, 0]], [[0, 1, 1]], [[2^53, 1, 1]]] 1 =
     (Inr 3, stub_self\<lparr>self_maps := Some [[1, 1, 1]]\<rparr>,
      [[[2^53, 0, 0]], [[0, 1, 1]], [[2^53, 1, 1]], [[2]]]) \<and>
   transform (stub_self\<lparr>self_maps := Some [[1, 1, 1]]\<rparr>)
     [[[2^53, 0, 0]], [[0, 1, 1]], [[2^53, 1, 1]]] 2 =
     (Inr 3, stub_self\<lparr>self_maps := Some [[1, 1, 1]]\<rparr>,
      [[[2^53, 0, 0]], [[0, 1, 1]], [[2^53, 1, 1]], [[2^53]]]) \<and>
   lin_comb 1 [[2^53]] 1 [[2]] = [[2^53 + 2]]"
proof -
  let ?s = "stub_self\<lparr>self_maps := Some [[1, 1, 1]]\<rparr>"
  let ?h = "[[[2^53, 0, 0]], [[0, 1, 1]], [[2^53, 1, 1]]] :: heap"
  have m: "self_maps ?s = Some [[1, 1, 1]]" "rect [[1, 1, 1]]" "0 < ncols [[1, 1, 1]]"
    by (simp_all add: rect_def ncols_def)
  have sh: "list_all (\<lambda>r. length r = ncols [[1, 1, 1]]) (?h ! 0)"
    "list_all (\<lambda>r. length r = ncols [[1, 1, 1]]) (?h ! 1)"
    "list_all (\<lambda>r. length r = ncols [[1, 1, 1]]) (?h ! 2)"
    by (simp_all add: ncols_def)
  have d: "dot [2^53, 0, 0] [1, 1, 1] = 2^53" "dot [0, 1, 1] [1, 1, 1] = 2"
    "dot [2^53, 1, 1] [1, 1, 1] = 2^53"
    by code_simp+
  have l: "lin_comb 1 [[2^53, 0, 0]] 1 [[0, 1, 1]] = [[2^53, 1, 1]]"
    "lin_comb 1 [[2^53]] 1 [[2]] = [[2^53 + 2]]"
    by code_simp+
  from transform_value [OF m sh(1)] transform_value [OF m sh(2)] transform_value [OF m sh(3)] d l
  show ?thesis
    by (simp add: times_T_def)
qed

text \<open>
  C8, amended. On a fitted model, for arrays whose rows are as long as those of \<open>maps_\<close>:
  \<open>transform\<close> returns a new array, the float64 product of its argument and the transpose
  of \<open>maps_\<close>, and leaves the model and all existing arrays as they are; and the result for
  \<open>a * x1 + b * x2\<close> is \<open>a\<close> times the result for \<open>x1\<close> plus \<open>b\<close> times the result for \<open>x2\<close>
  when no operation rounds: in forming \<open>a * x1 + b * x2\<close>, in the three products, and in
  combining the two results.
\<close>

theorem transform_linear_when_exact:
  assumes "self_maps self = Some m" "rect m" "0 < ncols m"
    and "list_all (\<lambda>r. length r = ncols m) (h ! p1)"
    and "list_all (\<lambda>r. length r = ncols m) (h ! p2)"
    and "h ! p3 = lin_comb a (h ! p1) b (h ! p2)"
  shows "transform self h p1 = (Inr (length h), self, h @ [times_T (h ! p1) m]) \<and>
         transform self h p2 = (Inr (length h), self, h @ [times_T (h ! p2) m]) \<and>
         transform self h p3 = (Inr (length h), self, h @ [times_T (h ! p3) m]) \<and>
         (list_all2 (list_all2 (exact_lin a b)) (h ! p1) (h ! p2) \<and>
          list_all (\<lambda>r. list_all (exact_dot r) m) (h ! p1) \<and>
          list_all (\<lambda>r. list_all (exact_dot r) m) (h ! p2) \<and>
          list_all (\<lambda>r. list_all (exact_dot r) m) (h ! p3) \<and>
          list_all2 (list_all2 (exact_lin a b)) (times_T (h ! p1) m) (times_T (h ! p2) m) \<longrightarrow>
          times_T (h ! p3) m = lin_comb a (times_T (h ! p1) m) b (times_T (h ! p2) m))"
proof (intro conjI impI)
  show "transform self h p1 = (Inr (length h), self, h @ [times_T (h ! p1) m])"
    by (rule transform_value [OF assms(1-4)])
  show "transform self h p2 = (Inr (length h), self, h @ [times_T (h ! p2) m])"
    by (rule transform_value [OF assms(1-3,5)])
  have "list_all (\<lambda>r. length r = ncols m) (h ! p3)"
    using assms(4-6) by (simp add: lin_comb_def lin_row_def list_all_length)
  then show "transform self h p3 = (Inr (length h), self, h @ [times_T (h ! p3) m])"
    by (rule transform_value [OF assms(1-3)])
next
  assume "list_all2 (list_all2 (exact_lin a b)) (h ! p1) (h ! p2) \<and>
          list_all (\<lambda>r. list_all (exact_dot r) m) (h ! p1) \<and>
          list_all (\<lambda>r. list_all (exact_dot r) m) (h ! p2) \<and>
          list_all (\<lambda>r. list_all (exact_dot r) m) (h ! p3) \<and>
          list_all2 (list_all2 (exact_lin a b)) (times_T (h ! p1) m) (times_T (h ! p2) m)"
  then show "times_T (h ! p3) m = lin_comb a (times_T (h ! p1) m) b (times_T (h ! p2) m)"
    unfolding assms(6) by (intro times_T_lin_exact) simp_all
qed

theorem transform_linear_when_exact_witness:
  "rect [[1, 2], [0, 1]] \<and> 0 < ncols [[1, 2], [0, 1]] \<and>
   lin_comb 2 [[1, 0]] 3 [[0, 1]] = [[2, 3]] \<and>
   list_all2 (list_all2 (exact_lin 2 3)) [[1, 0]] [[0, 1]] \<and>
   list_all (\<lambda>r. list_all (exact_dot r) [[1, 2], [0, 1]]) [[1, 0]] \<and>
   list_all (\<lambda>r. list_all (exact_dot r) [[1, 2], [0, 1]]) [[0, 1]] \<and>
   list_all (\<lambda>r. list_all (exact_dot r) [[1, 2], [0, 1]]) [[2, 3]] \<and>
   list_all2 (list_all2 (exact_lin 2 3)) (times_T [[1, 0]] [[1, 2], [0, 1]])
     (times_T [[0, 1]] [[1, 2], [0, 1]]) \<and>
   transform (stub_self\<lparr>self_maps := Some [[1, 2], [0, 1]]\<rparr>) [[[1, 0]], [[0, 1]], [[2, 3]]] 2 =
     (Inr 3, stub_self\<lparr>self_maps := Some [[1, 2], [0, 1]]\<rparr>,
      [[[1, 0]], [[0, 1]], [[2, 3]],
       lin_comb 2 (times_T [[1, 0]] [[1, 2], [0, 1]]) 3 (times_T [[0, 1]] [[1, 2], [0, 1]])]) \<and>
   lin_comb 2 (times_T [[1, 0]] [[1, 2], [0, 1]]) 3 (times_T [[0, 1]] [[1, 2], [0, 1]]) = [[8, 3]]"
proof -
  let ?s = "stub_self\<lparr>self_maps := Some [[1, 2], [0, 1]]\<rparr>"
  let ?h = "[[[1, 0]], [[0, 1]], [[2, 3]]] :: heap"
  have m: "self_maps ?s = Some [[1, 2], [0, 1]]" "rect [[1, 2], [0, 1]]" "0 < ncols [[1, 2], [0, 1]]"
    by (simp_all add: rect_def ncols_def)
  have sh: "list_all (\<lambda>r. length r = ncols [[1, 2], [0, 1]]) (?h ! 0)"
    "list_all (\<lambda>r. length r = ncols [[1, 2], [0, 1]]) (?h ! 1)"
    by (simp_all add: ncols_def)
  have l: "lin_comb 2 [[1, 0]] 3 [[0, 1]] = [[2, 3]]"
    by code_simp
  then have x3: "?h ! 2 = lin_comb 2 (?h ! 0) 3 (?h ! 1)"
    by simp
  have e1: "list_all2 (list_all2 (exact_lin 2 3)) [[1, 0]] [[0, 1]]"
    by code_simp
  have e2: "list_all (\<lambda>r. list_all (exact_dot r) [[1, 2], [0, 1]]) [[1, 0]]"
    by code_simp
  have e3: "list_all (\<lambda>r. list_all (exact_dot r) [[1, 2], [0, 1]]) [[0, 1]]"
    by code_simp
  have e4: "list_all (\<lambda>r. list_all (exact_dot r) [[1, 2], [0, 1]]) [[2, 3]]"
    by code_simp
  have e5: "list_all2 (list_all2 (exact_lin 2 3)) (times_T [[1, 0]] [[1, 2], [0, 1]])
     (times_T [[0, 1]] [[1, 2], [0, 1]])"
    by code_simp
  have v: "lin_comb 2 (times_T [[1, 0]] [[1, 2], [0, 1]]) 3 (times_T [[0, 1]] [[1, 2], [0, 1]]) = [[8, 3]]"
    by code_simp
  from transform_linear_when_exact [OF m sh x3] e1 e2 e3 e4 e5
  have "transform ?s ?h 2 = (Inr (length ?h), ?s, ?h @ [times_T (?h ! 2) [[1, 2], [0, 1]]])"
    and "times_T (?h ! 2) [[1, 2], [0, 1]] =
      lin_comb 2 (times_T (?h ! 0) [[1, 2], [0, 1]]) 3 (times_T (?h ! 1) [[1, 2], [0, 1]])"
    by simp_all
  then have "transform ?s ?h 2 = (Inr 3, ?s, ?h @
      [lin_comb 2 (times_T [[1, 0]] [[1, 2], [0, 1]]) 3 (times_T [[0, 1]] [[1, 2], [0, 1]])])"
    by simp
  with m l e1 e2 e3 e4 e5 v show ?thesis
    by simp
qed

end
